theory Spec2Isabelle
  imports Main
begin

section \<open>The logging engine: values, attributes, handlers, loggers\<close>

text \<open>
  Package clog (src/clog.go) is a facade over two collaborators that live outside the
  repository: Go's \<^verbatim>\<open>log/slog\<close> (loggers, handlers, attributes) and Go's
  \<^verbatim>\<open>context\<close> (the hierarchical key/value carrier). Section 6 of the
  specification lists what is consumed from each. The definitions of this section and of
  the next one model those collaborators; the definitions of the section after that are
  the functions of src/clog.go, line by line.
\<close>

text \<open>
  Modelled from the spec: the engine's attribute value (\<^verbatim>\<open>slog.Value\<close>), "polymorphic
  over string/int/bool/duration/nested-group/etc., engine-defined". Strings, 64-bit
  integers and booleans have kinds of their own; \<open>NilValue\<close> is the value made of a nil
  interface; \<open>BoxedAttr\<close> is the value of kind Any that holds an attribute; every other
  kind (floats, durations, times, groups, LogValuers, other Go values) is an
  \<open>OpaqueValue\<close>, identified by a number. Integer payloads are \<^typ>\<open>int\<close>: no
  arithmetic is ever done on them.
\<close>

datatype slog_value =
    StringValue string
  | Int64Value int
  | BoolValue bool
  | NilValue
  | BoxedAttr attr
  | OpaqueValue nat
and attr = Attr (Key: string) (Val: slog_value)

text \<open>
  A Go value of static type \<^verbatim>\<open>any\<close>, as it appears in the variadic argument
  lists of the emitting and deriving functions.
\<close>

datatype any =
    ANil
  | AString string
  | AInt int
  | AInt64 int
  | ABool bool
  | AAttr attr
  | AValue slog_value
  | AOpaque nat

text \<open>
  Modelled from the spec: \<^verbatim>\<open>slog.AnyValue\<close>, the engine's "standard coercion" of a
  Go value into an attribute value, and \<^verbatim>\<open>Value.Any\<close>, which gives the Go value
  back. A Go \<^verbatim>\<open>int\<close> becomes a 64-bit integer value and a \<^verbatim>\<open>slog.Value\<close> is
  returned as it is, so \<open>Any\<close> after \<open>AnyValue\<close> is not the identity.
\<close>

fun AnyValue :: "any \<Rightarrow> slog_value" where
  "AnyValue (AString s) = StringValue s"
| "AnyValue (AInt i) = Int64Value i"
| "AnyValue (AInt64 i) = Int64Value i"
| "AnyValue (ABool b) = BoolValue b"
| "AnyValue (AValue v) = v"
| "AnyValue ANil = NilValue"
| "AnyValue (AAttr a) = BoxedAttr a"
| "AnyValue (AOpaque n) = OpaqueValue n"

fun Any :: "slog_value \<Rightarrow> any" where
  "Any (StringValue s) = AString s"
| "Any (Int64Value i) = AInt64 i"
| "Any (BoolValue b) = ABool b"
| "Any NilValue = ANil"
| "Any (BoxedAttr a) = AAttr a"
| "Any (OpaqueValue n) = AOpaque n"

text \<open>
  Modelled from the spec: the engine's conversion of a variadic argument list into
  attributes (\<^verbatim>\<open>argsToAttr\<close> and \<^verbatim>\<open>argsToAttrSlice\<close> of log/slog): "alternating
  key, value; an odd trailing key with no value is tagged as a malformed attribute by the
  underlying engine". A string followed by a value is a pair; a string at the very end is
  a bad key; an attribute stands for itself; anything else is the value of a bad key.
  \<open>argsToAttr x rest\<close> is the call on the non-empty slice \<open>x # rest\<close>.
\<close>

definition badKey :: string where
  "badKey = ''!BADKEY''"

fun argsToAttr :: "any \<Rightarrow> any list \<Rightarrow> attr \<times> any list" where
  "argsToAttr (AString x) [] = (Attr badKey (StringValue x), [])"
| "argsToAttr (AString x) (v # rest) = (Attr x (AnyValue v), rest)"
| "argsToAttr (AAttr a) rest = (a, rest)"
| "argsToAttr x rest = (Attr badKey (AnyValue x), rest)"

lemma argsToAttr_length: "length (snd (argsToAttr x rest)) \<le> length rest"
  by (cases "(x, rest)" rule: argsToAttr.cases) simp_all

function argsToAttrSlice :: "any list \<Rightarrow> attr list" where
  "argsToAttrSlice [] = []"
| "argsToAttrSlice (x # rest) =
     fst (argsToAttr x rest) # argsToAttrSlice (snd (argsToAttr x rest))"
  by pat_completeness auto
termination
  by (relation "measure length") (simp_all add: argsToAttr_length le_imp_less_Suc)

text \<open>
  Levels are Go integers (\<^verbatim>\<open>type Level int\<close>), ordered by severity; the four
  named levels are the engine's constants.
\<close>

type_synonym level = int

definition LevelDebug :: level where "LevelDebug = - 4"
definition LevelInfo :: level where "LevelInfo = 0"
definition LevelWarn :: level where "LevelWarn = 4"
definition LevelError :: level where "LevelError = 8"

text \<open>
  The record a logger builds for one emission (time stamp and program counter are left
  out: no function of the facade reads them), and the entry a handler leaves in its sink:
  level, message, and every attribute together with the path of groups that qualifies its
  key (outermost group first). How a handler renders an entry as text is not part of the
  facade.
\<close>

record slog_record =
  Level :: level
  Message :: string
  attrs :: "attr list"

record entry =
  entry_level :: level
  entry_message :: string
  entry_attrs :: "(string list \<times> attr) list"

text \<open>
  Modelled from the spec: a handler of the engine, with the capabilities the facade
  consumes: "enabled(ctx, level), derive-with-attrs(attrs), derive-with-group(name)", and
  the handling of a record. A handler writes to one sink, has a configured threshold
  (\<^verbatim>\<open>HandlerOptions.Level\<close>), a path of open groups and the attributes bound so far,
  each under the groups that were open when it was bound. Deriving returns a new handler
  and leaves the receiver as it was.
\<close>

record handler =
  sink :: nat
  minLevel :: level
  groups :: "string list"
  bound :: "(string list \<times> attr) list"

definition Handler_Enabled :: "handler \<Rightarrow> level \<Rightarrow> bool" where
  "Handler_Enabled h l = (minLevel h \<le> l)"

definition Handler_WithAttrs :: "handler \<Rightarrow> attr list \<Rightarrow> handler" where
  "Handler_WithAttrs h as = h\<lparr>bound := bound h @ map (\<lambda>a. (groups h, a)) as\<rparr>"

definition Handler_WithGroup :: "handler \<Rightarrow> string \<Rightarrow> handler" where
  "Handler_WithGroup h name = (if name = [] then h else h\<lparr>groups := groups h @ [name]\<rparr>)"

definition Handler_entry :: "handler \<Rightarrow> slog_record \<Rightarrow> entry" where
  "Handler_entry h r =
     \<lparr>entry_level = Level r, entry_message = Message r,
      entry_attrs = bound h @ map (\<lambda>a. (groups h, a)) (attrs r)\<rparr>"

text \<open>
  A logger is a struct with one field, its handler; the field is never assigned after the
  logger is built, so a \<^verbatim>\<open>*slog.Logger\<close> is modelled by the value it points to, and
  the nil pointer by \<open>None\<close>.
\<close>

datatype logger = Logger (Handler: handler)

text \<open>
  The sinks: what each one has received so far, oldest entry first. Handling a record
  appends one entry to the sink of the handler and touches no other sink.
\<close>

type_synonym sinks = "nat \<Rightarrow> entry list"

definition Handler_Handle :: "handler \<Rightarrow> slog_record \<Rightarrow> sinks \<Rightarrow> sinks" where
  "Handler_Handle h r out = out(sink h := out (sink h) @ [Handler_entry h r])"

text \<open>
  Modelled from the spec: the methods of the engine's logger that the facade calls
  ("emit-at-level, check-enabled-at-level, derive-with-attributes, derive-with-group"),
  with the cases that the documentation of log/slog adds to the words of the
  specification:
  \<^item> every method reads the handler of its receiver, so on a nil receiver it panics with a
    nil pointer dereference;
  \<^item> \<^verbatim>\<open>With\<close> without arguments returns its receiver, and so does
    \<^verbatim>\<open>WithGroup\<close> with the empty name ("If name is empty, WithGroup returns the
    receiver"); both do so before they touch the receiver, nil or not;
  \<^item> emission asks the handler first and does nothing at a level the handler does not
    enable; otherwise it builds one record from the message and the converted arguments
    and hands it to the handler.
  The context that the facade passes along with each call is not read by the handlers
  modelled here. \<^verbatim>\<open>LogAttrs\<close> is left out.
\<close>

datatype panic = NilDereference

definition Logger_Enabled :: "logger option \<Rightarrow> level \<Rightarrow> panic + bool" where
  "Logger_Enabled l level =
     (case l of
        None \<Rightarrow> Inl NilDereference
      | Some lg \<Rightarrow> Inr (Handler_Enabled (Handler lg) level))"

definition Logger_log :: "logger option \<Rightarrow> level \<Rightarrow> string \<Rightarrow> any list \<Rightarrow> sinks \<Rightarrow> panic + sinks" where
  "Logger_log l level msg args out =
     (case l of
        None \<Rightarrow> Inl NilDereference
      | Some lg \<Rightarrow>
          if \<not> Handler_Enabled (Handler lg) level then Inr out
          else Inr (Handler_Handle (Handler lg)
                 \<lparr>Level = level, Message = msg, attrs = argsToAttrSlice args\<rparr> out))"

definition Logger_DebugContext :: "logger option \<Rightarrow> string \<Rightarrow> any list \<Rightarrow> sinks \<Rightarrow> panic + sinks" where
  "Logger_DebugContext l msg args = Logger_log l LevelDebug msg args"

definition Logger_InfoContext :: "logger option \<Rightarrow> string \<Rightarrow> any list \<Rightarrow> sinks \<Rightarrow> panic + sinks" where
  "Logger_InfoContext l msg args = Logger_log l LevelInfo msg args"

definition Logger_WarnContext :: "logger option \<Rightarrow> string \<Rightarrow> any list \<Rightarrow> sinks \<Rightarrow> panic + sinks" where
  "Logger_WarnContext l msg args = Logger_log l LevelWarn msg args"

definition Logger_ErrorContext :: "logger option \<Rightarrow> string \<Rightarrow> any list \<Rightarrow> sinks \<Rightarrow> panic + sinks" where
  "Logger_ErrorContext l msg args = Logger_log l LevelError msg args"

definition Logger_With :: "logger option \<Rightarrow> any list \<Rightarrow> panic + logger option" where
  "Logger_With l args =
     (if args = [] then Inr l
      else case l of
        None \<Rightarrow> Inl NilDereference
      | Some lg \<Rightarrow> Inr (Some (Logger (Handler_WithAttrs (Handler lg) (argsToAttrSlice args)))))"

definition Logger_WithGroup :: "logger option \<Rightarrow> string \<Rightarrow> panic + logger option" where
  "Logger_WithGroup l name =
     (if name = [] then Inr l
      else case l of
        None \<Rightarrow> Inl NilDereference
      | Some lg \<Rightarrow> Inr (Some (Logger (Handler_WithGroup (Handler lg) name))))"

section \<open>Contexts\<close>

text \<open>
  Modelled from the spec: the host environment's "immutable, hierarchical,
  key-addressable execution-context type supporting derive-with-value and lookup-by-key".
  A context is the background context, a context derived without a value (cancellation,
  deadline), or a context derived with one key and one value. The key is the facade's own
  \<^verbatim>\<open>contextKey{}\<close> or a key of some other package; the value is an interface value:
  a \<^verbatim>\<open>*slog.Logger\<close> (nil or not) or a value of another type. A nil
  \<^verbatim>\<open>context.Context\<close> is not a context: \<^verbatim>\<open>context.WithValue\<close> refuses a nil
  parent, so no chain contains one, and the type below has none.
\<close>

datatype ckey = contextKey | ForeignKey nat

datatype cval = LoggerVal "logger option" | ForeignVal nat

datatype "context" = Background | WithCancel "context" | WithValue "context" ckey cval

text \<open>\<^verbatim>\<open>ctx.Value(key)\<close>: the value of the nearest node that carries the key; \<open>None\<close> is the nil interface.\<close>

fun Value :: "context \<Rightarrow> ckey \<Rightarrow> cval option" where
  "Value Background k = None"
| "Value (WithCancel parent) k = Value parent k"
| "Value (WithValue parent key val) k = (if k = key then Some val else Value parent k)"

section \<open>The facade: src/clog.go\<close>

text \<open>
  The state of the process as the facade sees it: the package variable
  \<^verbatim>\<open>defaultLogger\<close> and the contents of the sinks the handlers write to. Every
  exported function takes the state and returns its result with the state after the call,
  or the panic that ended the call.
\<close>

record state =
  defaultLogger :: "logger option"
  sinks :: sinks

text \<open>\<^verbatim>\<open>func init()\<close>: the default is the engine's own default logger, which is not nil.\<close>

definition init :: "logger \<Rightarrow> state" where
  "init slog_Default = \<lparr>defaultLogger = Some slog_Default, sinks = (\<lambda>_. [])\<rparr>"

definition SetDefault :: "logger option \<Rightarrow> state \<Rightarrow> panic + (unit \<times> state)" where
  "SetDefault logger s = Inr ((), s\<lparr>defaultLogger := logger\<rparr>)"

definition WithLogger :: "context \<Rightarrow> logger option \<Rightarrow> state \<Rightarrow> panic + (context \<times> state)" where
  "WithLogger ctx logger s = Inr (WithValue ctx contextKey (LoggerVal logger), s)"

text \<open>
  \<^verbatim>\<open>loggerFromContext\<close>: the type assertion succeeds on every value of dynamic type
  \<^verbatim>\<open>*slog.Logger\<close>, a nil pointer included; it fails on the nil interface and on
  values of other types, and then the default is returned.
\<close>

definition loggerFromContext :: "state \<Rightarrow> context \<Rightarrow> logger option" where
  "loggerFromContext s ctx =
     (case Value ctx contextKey of
        Some (LoggerVal logger) \<Rightarrow> logger
      | _ \<Rightarrow> defaultLogger s)"


text \<open>
  An emitting function forwards to the resolved logger; what the logger does to the sinks
  is the new state of the sinks, and a panic of the logger is the panic of the call.
\<close>

definition forward :: "(sinks \<Rightarrow> panic + sinks) \<Rightarrow> state \<Rightarrow> panic + (unit \<times> state)" where
  "forward emit s =
     (case emit (sinks s) of
        Inl p \<Rightarrow> Inl p
      | Inr out \<Rightarrow> Inr ((), s\<lparr>sinks := out\<rparr>))"

definition Enabled :: "context \<Rightarrow> level \<Rightarrow> state \<Rightarrow> panic + (bool \<times> state)" where
  "Enabled ctx level s =
     (case Logger_Enabled (loggerFromContext s ctx) level of
        Inl p \<Rightarrow> Inl p
      | Inr b \<Rightarrow> Inr (b, s))"

definition Debug :: "context \<Rightarrow> string \<Rightarrow> any list \<Rightarrow> state \<Rightarrow> panic + (unit \<times> state)" where
  "Debug ctx msg args s = forward (Logger_DebugContext (loggerFromContext s ctx) msg args) s"

definition Info :: "context \<Rightarrow> string \<Rightarrow> any list \<Rightarrow> state \<Rightarrow> panic + (unit \<times> state)" where
  "Info ctx msg args s = forward (Logger_InfoContext (loggerFromContext s ctx) msg args) s"

definition Warn :: "context \<Rightarrow> string \<Rightarrow> any list \<Rightarrow> state \<Rightarrow> panic + (unit \<times> state)" where
  "Warn ctx msg args s = forward (Logger_WarnContext (loggerFromContext s ctx) msg args) s"

definition Error :: "context \<Rightarrow> string \<Rightarrow> any list \<Rightarrow> state \<Rightarrow> panic + (unit \<times> state)" where
  "Error ctx msg args s = forward (Logger_ErrorContext (loggerFromContext s ctx) msg args) s"

definition Log :: "context \<Rightarrow> level \<Rightarrow> string \<Rightarrow> any list \<Rightarrow> state \<Rightarrow> panic + (unit \<times> state)" where
  "Log ctx level msg args s = forward (Logger_log (loggerFromContext s ctx) level msg args) s"

definition WithGroup :: "context \<Rightarrow> string \<Rightarrow> state \<Rightarrow> panic + (context \<times> state)" where
  "WithGroup ctx name s =
     (case Logger_WithGroup (loggerFromContext s ctx) name of
        Inl p \<Rightarrow> Inl p
      | Inr logger \<Rightarrow> WithLogger ctx logger s)"

text \<open>
  \<^verbatim>\<open>WithAttrs\<close> first flattens its attributes into an argument list, appending the
  key and the Go value of each attribute in turn, and then calls the logger's
  \<^verbatim>\<open>With\<close> on that list.
\<close>

primrec WithAttrs_args :: "attr list \<Rightarrow> any list \<Rightarrow> any list" where
  "WithAttrs_args [] args = args"
| "WithAttrs_args (a # as) args = WithAttrs_args as (args @ [AString (Key a), Any (Val a)])"

definition WithAttrs :: "context \<Rightarrow> attr list \<Rightarrow> state \<Rightarrow> panic + (context \<times> state)" where
  "WithAttrs ctx as s =
     (let logger = loggerFromContext s ctx;
          args = WithAttrs_args as []
      in case Logger_With logger args of
           Inl p \<Rightarrow> Inl p
         | Inr enrichedLogger \<Rightarrow> WithLogger ctx enrichedLogger s)"

definition With :: "context \<Rightarrow> any list \<Rightarrow> state \<Rightarrow> panic + (context \<times> state)" where
  "With ctx args s =
     (case Logger_With (loggerFromContext s ctx) args of
        Inl p \<Rightarrow> Inl p
      | Inr logger \<Rightarrow> WithLogger ctx logger s)"

section \<open>The words of the specification\<close>

text \<open>
  "Walking the hierarchical context chain to the nearest ancestor (or self) carrying the
  reserved slot": the value in the slot of that node, or \<open>None\<close> when no node of the
  chain carries the slot.
\<close>

fun nearest_binding :: "context \<Rightarrow> cval option" where
  "nearest_binding Background = None"
| "nearest_binding (WithCancel parent) = nearest_binding parent"
| "nearest_binding (WithValue parent key val) =
     (case key of contextKey \<Rightarrow> Some val | ForeignKey n \<Rightarrow> nearest_binding parent)"

text \<open>
  "Emit a record at the level, carrying the message and the supplied key/value pairs
  converted to attributes using the host logging engine's standard coercion rules": the
  entry that a logger with handler \<open>h\<close> leaves in its sink. The attributes bound to
  the logger come first; the converted arguments follow, under the groups open in the
  logger.
\<close>

definition emitted_entry :: "handler \<Rightarrow> level \<Rightarrow> string \<Rightarrow> any list \<Rightarrow> entry" where
  "emitted_entry h level msg args =
     \<lparr>entry_level = level, entry_message = msg,
      entry_attrs = bound h @ map (\<lambda>a. (groups h, a)) (argsToAttrSlice args)\<rparr>"

text \<open>
  "Emits exactly these records": the state \<open>s'\<close> is the state \<open>s\<close> with the
  entries \<open>es\<close> appended to sink \<open>n\<close>; the default logger and every other sink
  are as they were.
\<close>

definition emits :: "state \<Rightarrow> state \<Rightarrow> nat \<Rightarrow> entry list \<Rightarrow> bool" where
  "emits s s' n es =
     (defaultLogger s' = defaultLogger s \<and> sinks s' = (sinks s)(n := sinks s n @ es))"

text \<open>
  "The corresponding key/value pairs" of a list of attributes: for each attribute in
  turn, its key and then the Go value of its value.
\<close>

definition attr_pairs :: "attr list \<Rightarrow> any list" where
  "attr_pairs as = concat (map (\<lambda>a. [AString (Key a), Any (Val a)]) as)"

text \<open>
  "A logger derived from that captured instance": a logger with the sink and the threshold
  of the captured one, whose bound attributes and open groups start with those of the
  captured one.
\<close>

definition derived_from :: "logger \<Rightarrow> logger \<Rightarrow> bool" where
  "derived_from lg lg' =
     (sink (Handler lg') = sink (Handler lg)
      \<and> minLevel (Handler lg') = minLevel (Handler lg)
      \<and> take (length (bound (Handler lg))) (bound (Handler lg')) = bound (Handler lg)
      \<and> take (length (groups (Handler lg))) (groups (Handler lg')) = groups (Handler lg))"

section \<open>Concrete loggers and contexts\<close>

text \<open>
  Two text handlers as the tests build them, one at level Debug writing to sink 1 and one
  at level Warn writing to sink 2, and the state right after start-up with the first as the
  engine's default.
\<close>

definition debugHandler :: handler where
  "debugHandler = \<lparr>sink = 1, minLevel = LevelDebug, groups = [], bound = []\<rparr>"

definition warnHandler :: handler where
  "warnHandler = \<lparr>sink = 2, minLevel = LevelWarn, groups = [], bound = []\<rparr>"

definition startState :: state where
  "startState = init (Logger debugHandler)"

definition warnCtx :: "context" where
  "warnCtx = WithValue Background contextKey (LoggerVal (Some (Logger warnHandler)))"

section \<open>Resolution\<close>

lemma Value_nearest_binding: "Value ctx contextKey = nearest_binding ctx"
  by (induction ctx) (simp_all split: ckey.splits)

text \<open>
  C1. For every context, resolution returns the logger held by the nearest binding of the
  chain (the default when the chain has none, or when the slot holds no logger pointer),
  and \<^verbatim>\<open>WithLogger(ctx, logger)\<close> returns, without touching the state, a context
  that agrees with \<open>ctx\<close> on every key but the reserved one, where it holds
  \<open>logger\<close>; so resolution on the new context gives \<open>logger\<close>, and a later
  \<^verbatim>\<open>WithLogger\<close> shadows an earlier one.
\<close>

theorem loggerFromContext_WithLogger:
  "loggerFromContext s ctx =
     (case nearest_binding ctx of Some (LoggerVal l) \<Rightarrow> l | _ \<Rightarrow> defaultLogger s)
   \<and> (\<exists>ctx'. WithLogger ctx logger s = Inr (ctx', s)
        \<and> (\<forall>k. Value ctx' k = (if k = contextKey then Some (LoggerVal logger) else Value ctx k))
        \<and> nearest_binding ctx' = Some (LoggerVal logger)
        \<and> loggerFromContext s ctx' = logger
        \<and> (\<exists>ctx''. WithLogger ctx' later s = Inr (ctx'', s)
               \<and> loggerFromContext s ctx'' = later))"
  by (simp add: loggerFromContext_def WithLogger_def Value_nearest_binding)

theorem loggerFromContext_WithLogger_witness:
  "loggerFromContext startState (WithCancel (WithValue Background contextKey (LoggerVal (Some (Logger warnHandler)))))
     = Some (Logger warnHandler)
   \<and> WithLogger Background (Some (Logger warnHandler)) startState
     = Inr (WithValue Background contextKey (LoggerVal (Some (Logger warnHandler))), startState)"
  using loggerFromContext_WithLogger
    [of startState "WithCancel (WithValue Background contextKey (LoggerVal (Some (Logger warnHandler))))"
        "Some (Logger warnHandler)" None]
  by (simp add: WithLogger_def)

text \<open>
  C2, as amended. When the chain has no binding, resolution returns the current default
  logger. The result is a non-nil logger whenever the default logger is not nil and the
  nearest binding, if there is one, does not hold a nil logger; as stated, with no
  condition on what \<^verbatim>\<open>SetDefault\<close> and \<^verbatim>\<open>WithLogger\<close> were given, the
  claim fails.
\<close>

theorem loggerFromContext_non_nil:
  "(nearest_binding ctx = None \<longrightarrow> loggerFromContext s ctx = defaultLogger s)
   \<and> (defaultLogger s \<noteq> None \<longrightarrow> nearest_binding ctx \<noteq> Some (LoggerVal None)
        \<longrightarrow> loggerFromContext s ctx \<noteq> None)"
  by (auto simp: loggerFromContext_def Value_nearest_binding split: option.splits cval.splits)

theorem loggerFromContext_non_nil_witness:
  "nearest_binding (WithValue Background (ForeignKey 7) (ForeignVal 0)) = None
   \<and> defaultLogger startState \<noteq> None
   \<and> nearest_binding (WithValue Background (ForeignKey 7) (ForeignVal 0)) \<noteq> Some (LoggerVal None)
   \<and> loggerFromContext startState (WithValue Background (ForeignKey 7) (ForeignVal 0))
       = Some (Logger debugHandler)"
  using loggerFromContext_non_nil [of "WithValue Background (ForeignKey 7) (ForeignVal 0)" startState]
  by (simp add: startState_def init_def)

text \<open>
  The claim C2 as stated fails in two ways: after \<^verbatim>\<open>SetDefault(nil)\<close> the
  background context resolves to nil, and a context bound to a nil logger resolves to nil
  although the default is not nil (the type assertion succeeds on a nil pointer of the
  right type).
\<close>

theorem loggerFromContext_nil_counterexample:
  "SetDefault None startState = Inr ((), startState\<lparr>defaultLogger := None\<rparr>)
   \<and> loggerFromContext (startState\<lparr>defaultLogger := None\<rparr>) Background = None
   \<and> WithLogger Background None startState
       = Inr (WithValue Background contextKey (LoggerVal None), startState)
   \<and> defaultLogger startState = Some (Logger debugHandler)
   \<and> loggerFromContext startState (WithValue Background contextKey (LoggerVal None)) = None"
  by (simp add: SetDefault_def WithLogger_def loggerFromContext_def startState_def init_def)

text \<open>
  C3. \<^verbatim>\<open>SetDefault(newLogger)\<close> replaces the default and nothing else. In the
  state it returns, a context whose chain has no binding resolves to \<open>newLogger\<close>,
  and a context whose nearest binding holds a logger, such as one returned by
  \<^verbatim>\<open>WithLogger\<close>, resolves to that logger, as it did before the call.
\<close>

theorem SetDefault_unbound_only:
  "\<exists>s'. SetDefault newLogger s = Inr ((), s')
      \<and> sinks s' = sinks s
      \<and> (nearest_binding ctx = None \<longrightarrow> loggerFromContext s' ctx = newLogger)
      \<and> (nearest_binding ctx = Some (LoggerVal l)
           \<longrightarrow> loggerFromContext s' ctx = l \<and> loggerFromContext s ctx = l)
      \<and> (WithLogger parent l s = Inr (ctx, s)
           \<longrightarrow> loggerFromContext s' ctx = l \<and> loggerFromContext s ctx = l)"
  by (auto simp: SetDefault_def WithLogger_def loggerFromContext_def Value_nearest_binding)

theorem SetDefault_unbound_only_witness:
  "nearest_binding (WithCancel Background) = None
   \<and> WithLogger Background (Some (Logger debugHandler)) startState
       = Inr (WithValue Background contextKey (LoggerVal (Some (Logger debugHandler))), startState)
   \<and> (\<exists>s'. SetDefault (Some (Logger warnHandler)) startState = Inr ((), s')
        \<and> loggerFromContext s' (WithCancel Background) = Some (Logger warnHandler)
        \<and> loggerFromContext s' (WithValue Background contextKey (LoggerVal (Some (Logger debugHandler))))
            = Some (Logger debugHandler))"
  using SetDefault_unbound_only
    [of "Some (Logger warnHandler)" startState "WithCancel Background" "Some (Logger debugHandler)" Background]
    SetDefault_unbound_only
    [of "Some (Logger warnHandler)" startState
        "WithValue Background contextKey (LoggerVal (Some (Logger debugHandler)))"
        "Some (Logger debugHandler)" Background]
  by (auto simp: WithLogger_def SetDefault_def)

section \<open>Emission and level gating\<close>

lemma forward_Logger_log:
  "forward (Logger_log (Some lg) level msg args) s =
     Inr ((), if minLevel (Handler lg) \<le> level
              then s\<lparr>sinks := (sinks s)(sink (Handler lg) :=
                     sinks s (sink (Handler lg)) @ [emitted_entry (Handler lg) level msg args])\<rparr>
              else s)"
  by (simp add: forward_def Logger_log_def Handler_Enabled_def Handler_Handle_def
      Handler_entry_def emitted_entry_def)

text \<open>
  C4, as amended. Each of \<^verbatim>\<open>Debug\<close>, \<^verbatim>\<open>Info\<close>, \<^verbatim>\<open>Warn\<close> and
  \<^verbatim>\<open>Error\<close> is \<^verbatim>\<open>Log\<close> at the level of its name (-4, 0, 4 and 8). For a
  context whose resolved logger is not nil, \<^verbatim>\<open>Log\<close> emits exactly one record to the
  sink of that logger when the logger enables the level: the record has the level and the
  message, and carries the attributes bound to the logger followed by the supplied
  arguments as the engine converts them. When the logger does not enable the level,
  nothing is emitted and the state is as before.
\<close>

theorem Log_one_record_when_enabled:
  "Debug ctx msg args s = Log ctx LevelDebug msg args s
   \<and> Info ctx msg args s = Log ctx LevelInfo msg args s
   \<and> Warn ctx msg args s = Log ctx LevelWarn msg args s
   \<and> Error ctx msg args s = Log ctx LevelError msg args s
   \<and> [LevelDebug, LevelInfo, LevelWarn, LevelError] = [- 4, 0, 4, 8]
   \<and> (loggerFromContext s ctx = Some lg \<longrightarrow>
        (minLevel (Handler lg) \<le> level \<longrightarrow>
           (\<exists>s'. Log ctx level msg args s = Inr ((), s')
              \<and> emits s s' (sink (Handler lg)) [emitted_entry (Handler lg) level msg args]))
        \<and> (\<not> minLevel (Handler lg) \<le> level \<longrightarrow> Log ctx level msg args s = Inr ((), s)))"
  by (simp add: Debug_def Info_def Warn_def Error_def Log_def Logger_DebugContext_def
      Logger_InfoContext_def Logger_WarnContext_def Logger_ErrorContext_def
      LevelDebug_def LevelInfo_def LevelWarn_def LevelError_def forward_Logger_log emits_def)

theorem Log_one_record_when_enabled_witness:
  "loggerFromContext startState warnCtx = Some (Logger warnHandler)
   \<and> minLevel (Handler (Logger warnHandler)) \<le> LevelError
   \<and> (\<exists>s'. Error warnCtx ''disk full'' [AString ''dev'', AInt 3, AString ''odd''] startState = Inr ((), s')
        \<and> sinks s' 2 =
            [\<lparr>entry_level = 8, entry_message = ''disk full'',
              entry_attrs = [([], Attr ''dev'' (Int64Value 3)), ([], Attr ''!BADKEY'' (StringValue ''odd''))]\<rparr>]
        \<and> sinks s' 1 = [])"
proof -
  have r: "loggerFromContext startState warnCtx = Some (Logger warnHandler)"
    by (simp add: loggerFromContext_def warnCtx_def)
  have e: "minLevel (Handler (Logger warnHandler)) \<le> LevelError"
    by (simp add: warnHandler_def LevelWarn_def LevelError_def)
  from Log_one_record_when_enabled
    [of warnCtx "''disk full''" "[AString ''dev'', AInt 3, AString ''odd'']" startState
        "Logger warnHandler" LevelError]
  obtain s' where
    "Error warnCtx ''disk full'' [AString ''dev'', AInt 3, AString ''odd''] startState = Inr ((), s')"
    "emits startState s' (sink (Handler (Logger warnHandler)))
       [emitted_entry (Handler (Logger warnHandler)) LevelError ''disk full''
          [AString ''dev'', AInt 3, AString ''odd'']]"
    using r e by auto
  then show ?thesis
    using r e
    by (simp add: emits_def emitted_entry_def warnHandler_def startState_def init_def
        LevelError_def badKey_def)
qed

text \<open>
  The claim C4 as stated fails at a level the resolved logger does not enable: a logger
  with threshold Warn is bound, \<^verbatim>\<open>Debug\<close> and \<^verbatim>\<open>Info\<close> return, and the
  state, the sink of the logger included, is what it was: no record was emitted.
\<close>

theorem Debug_disabled_counterexample:
  "loggerFromContext startState warnCtx = Some (Logger warnHandler)
   \<and> Debug warnCtx ''probe'' [AString ''k'', AString ''v''] startState = Inr ((), startState)
   \<and> Info warnCtx ''probe'' [AString ''k'', AString ''v''] startState = Inr ((), startState)
   \<and> sinks startState 2 = []"
  by (simp add: Debug_def Info_def Logger_DebugContext_def Logger_InfoContext_def
      forward_Logger_log loggerFromContext_def warnCtx_def warnHandler_def
      LevelDebug_def LevelInfo_def LevelWarn_def startState_def init_def)

text \<open>
  C5, as amended. For a context whose resolved logger is not nil,
  \<^verbatim>\<open>Enabled(ctx, level)\<close> returns what that logger answers: with threshold
  \<open>t\<close> it returns false at every level below \<open>t\<close> and true at \<open>t\<close> and
  above. Whenever it returns, the state after the call (default logger and sinks) is the
  state before it, and the context resolves to the same logger afterwards. For a context
  that resolves to the nil logger the call does not return: it panics.
\<close>

theorem Enabled_threshold_no_effect:
  "(\<forall>b s'. Enabled ctx level s = Inr (b, s') \<longrightarrow>
       s' = s \<and> Logger_Enabled (loggerFromContext s ctx) level = Inr b
       \<and> loggerFromContext s' ctx = loggerFromContext s ctx)
   \<and> (loggerFromContext s ctx = Some lg \<longrightarrow>
        Enabled ctx level s = Inr (minLevel (Handler lg) \<le> level, s)
        \<and> (level < minLevel (Handler lg) \<longrightarrow> Enabled ctx level s = Inr (False, s))
        \<and> (minLevel (Handler lg) \<le> level \<longrightarrow> Enabled ctx level s = Inr (True, s)))
   \<and> (loggerFromContext s ctx = None \<longrightarrow> Enabled ctx level s = Inl NilDereference)"
  by (auto simp: Enabled_def Logger_Enabled_def Handler_Enabled_def split: sum.splits)

theorem Enabled_threshold_no_effect_witness:
  "loggerFromContext startState warnCtx = Some (Logger warnHandler)
   \<and> LevelDebug < minLevel (Handler (Logger warnHandler))
   \<and> Enabled warnCtx LevelDebug startState = Inr (False, startState)
   \<and> minLevel (Handler (Logger warnHandler)) \<le> LevelWarn
   \<and> Enabled warnCtx LevelWarn startState = Inr (True, startState)
   \<and> Enabled warnCtx LevelError startState = Inr (True, startState)"
proof -
  have r: "loggerFromContext startState warnCtx = Some (Logger warnHandler)"
    by (simp add: loggerFromContext_def warnCtx_def)
  have lv: "LevelDebug < minLevel (Handler (Logger warnHandler))"
    "minLevel (Handler (Logger warnHandler)) \<le> LevelWarn"
    "minLevel (Handler (Logger warnHandler)) \<le> LevelError"
    by (simp_all add: warnHandler_def LevelDebug_def LevelWarn_def LevelError_def)
  note t = Enabled_threshold_no_effect
    [of warnCtx _ startState "Logger warnHandler", THEN conjunct2, THEN conjunct1,
     rule_format, OF r]
  have d: "Enabled warnCtx LevelDebug startState = Inr (False, startState)"
    using t [of LevelDebug] lv(1) by blast
  have w: "Enabled warnCtx LevelWarn startState = Inr (True, startState)"
    using t [of LevelWarn] lv(2) by blast
  have e: "Enabled warnCtx LevelError startState = Inr (True, startState)"
    using t [of LevelError] lv(3) by blast
  show ?thesis
    using r lv d w e by blast
qed

text \<open>
  The claim C5 as stated, for every context, fails on a context that resolves to the nil
  logger: \<^verbatim>\<open>WithLogger(ctx, nil)\<close> returns such a context, and
  \<^verbatim>\<open>Enabled\<close> on it returns no decision at all, it panics when the engine reads
  the handler of the nil logger.
\<close>

theorem Enabled_nil_counterexample:
  "WithLogger Background None startState
     = Inr (WithValue Background contextKey (LoggerVal None), startState)
   \<and> loggerFromContext startState (WithValue Background contextKey (LoggerVal None)) = None
   \<and> Enabled (WithValue Background contextKey (LoggerVal None)) LevelInfo startState
       = Inl NilDereference"
  by (simp add: WithLogger_def loggerFromContext_def Enabled_def Logger_Enabled_def)

section \<open>Deriving contexts\<close>

lemma AnyValue_Any: "AnyValue (Any v) = v"
  by (cases v) simp_all

lemma WithAttrs_args_attr_pairs: "WithAttrs_args as args = args @ attr_pairs as"
  by (induction as arbitrary: args) (simp_all add: attr_pairs_def)

lemma argsToAttrSlice_attr_pairs: "argsToAttrSlice (attr_pairs as) = as"
proof (induction as)
  case Nil
  then show ?case by (simp add: attr_pairs_def)
next
  case (Cons a as)
  have "attr_pairs (a # as) = AString (Key a) # Any (Val a) # attr_pairs as"
    by (simp add: attr_pairs_def)
  then show ?case
    using Cons.IH by (simp add: AnyValue_Any)
qed

lemma attr_pairs_eq_Nil: "(attr_pairs as = []) = (as = [])"
  by (cases as) (simp_all add: attr_pairs_def)

lemma loggerFromContext_bound:
  "loggerFromContext s (WithValue ctx contextKey (LoggerVal l)) = l"
  by (simp add: loggerFromContext_def)

lemma With_Some:
  "loggerFromContext s ctx = Some lg \<Longrightarrow> args \<noteq> [] \<Longrightarrow>
   With ctx args s =
     Inr (WithValue ctx contextKey
            (LoggerVal (Some (Logger (Handler_WithAttrs (Handler lg) (argsToAttrSlice args))))), s)"
  by (simp add: With_def Logger_With_def WithLogger_def)

lemma WithGroup_Some:
  "loggerFromContext s ctx = Some lg \<Longrightarrow> name \<noteq> [] \<Longrightarrow>
   WithGroup ctx name s =
     Inr (WithValue ctx contextKey
            (LoggerVal (Some (Logger ((Handler lg)\<lparr>groups := groups (Handler lg) @ [name]\<rparr>)))), s)"
  by (simp add: WithGroup_def Logger_WithGroup_def WithLogger_def Handler_WithGroup_def)

lemma WithAttrs_With: "WithAttrs ctx as s = With ctx (attr_pairs as) s"
  by (simp add: WithAttrs_def With_def WithAttrs_args_attr_pairs)

lemma Log_Some:
  "loggerFromContext s ctx = Some lg \<Longrightarrow> minLevel (Handler lg) \<le> level \<Longrightarrow>
   \<exists>s'. Log ctx level msg args s = Inr ((), s')
      \<and> emits s s' (sink (Handler lg)) [emitted_entry (Handler lg) level msg args]"
  by (simp add: Log_def forward_Logger_log emits_def)

lemma argsToAttrSlice_attr_pairs_coerced:
  "argsToAttrSlice (attr_pairs as) = map (\<lambda>a. Attr (Key a) (AnyValue (Any (Val a)))) as"
proof (induction as)
  case Nil
  then show ?case by (simp add: attr_pairs_def)
next
  case (Cons a as)
  have "attr_pairs (a # as) = AString (Key a) # Any (Val a) # attr_pairs as"
    by (simp add: attr_pairs_def)
  then show ?case
    using Cons.IH by simp
qed

text \<open>
  C6, as amended. \<^verbatim>\<open>WithAttrs(ctx, attrs...)\<close> is \<^verbatim>\<open>With(ctx, pairs...)\<close> on
  the corresponding key/value pairs, the generic conversion included: the loop of the
  source turns each attribute into its key and the Go value of its value, the list handed
  to the logger's \<^verbatim>\<open>With\<close> is the list of those pairs, and what the logger binds
  are the attributes that the engine converts them into, each key with the value coerced
  from that Go value. With no attributes the resolved logger itself is bound.
\<close>

theorem WithAttrs_refines_With:
  "WithAttrs ctx as s = With ctx (attr_pairs as) s
   \<and> WithAttrs_args as [] = attr_pairs as
   \<and> argsToAttrSlice (attr_pairs as) = map (\<lambda>a. Attr (Key a) (AnyValue (Any (Val a)))) as
   \<and> (loggerFromContext s ctx = Some lg \<longrightarrow> as \<noteq> [] \<longrightarrow>
        WithAttrs ctx as s =
          Inr (WithValue ctx contextKey
                 (LoggerVal (Some (Logger (Handler_WithAttrs (Handler lg)
                    (map (\<lambda>a. Attr (Key a) (AnyValue (Any (Val a)))) as))))), s))
   \<and> (as = [] \<longrightarrow> WithAttrs ctx as s = WithLogger ctx (loggerFromContext s ctx) s)"
proof -
  have a: "WithAttrs ctx as s = With ctx (attr_pairs as) s"
    by (rule WithAttrs_With)
  have f: "WithAttrs_args as [] = attr_pairs as"
    by (simp add: WithAttrs_args_attr_pairs)
  have b: "WithAttrs ctx as s =
          Inr (WithValue ctx contextKey
                 (LoggerVal (Some (Logger (Handler_WithAttrs (Handler lg)
                    (map (\<lambda>a. Attr (Key a) (AnyValue (Any (Val a)))) as))))), s)"
    if "loggerFromContext s ctx = Some lg" "as \<noteq> []"
    using that With_Some [of s ctx lg "attr_pairs as"]
    by (simp add: a attr_pairs_eq_Nil argsToAttrSlice_attr_pairs_coerced)
  have c: "WithAttrs ctx as s = WithLogger ctx (loggerFromContext s ctx) s" if "as = []"
    using that by (simp add: WithAttrs_def With_def Logger_With_def)
  show ?thesis
    using a f b c argsToAttrSlice_attr_pairs_coerced by blast
qed

theorem WithAttrs_refines_With_witness:
  "loggerFromContext startState warnCtx = Some (Logger warnHandler)
   \<and> WithAttrs warnCtx [Attr ''service'' (StringValue ''test''), Attr ''version'' (Int64Value 1)] startState
       = With warnCtx [AString ''service'', AString ''test'', AString ''version'', AInt64 1] startState
   \<and> WithAttrs warnCtx [Attr ''service'' (StringValue ''test''), Attr ''version'' (Int64Value 1)] startState
       = Inr (WithValue warnCtx contextKey
               (LoggerVal (Some (Logger
                  \<lparr>sink = 2, minLevel = 4, groups = [],
                   bound = [([], Attr ''service'' (StringValue ''test'')),
                            ([], Attr ''version'' (Int64Value 1))]\<rparr>))), startState)"
proof -
  have r: "loggerFromContext startState warnCtx = Some (Logger warnHandler)"
    by (simp add: loggerFromContext_def warnCtx_def)
  have n: "[Attr ''service'' (StringValue ''test''), Attr ''version'' (Int64Value 1)] \<noteq> []"
    by simp
  note t = WithAttrs_refines_With
    [of warnCtx "[Attr ''service'' (StringValue ''test''), Attr ''version'' (Int64Value 1)]"
        startState "Logger warnHandler"]
  have p: "attr_pairs [Attr ''service'' (StringValue ''test''), Attr ''version'' (Int64Value 1)]
       = [AString ''service'', AString ''test'', AString ''version'', AInt64 1]"
    by (simp add: attr_pairs_def)
  have h: "Handler_WithAttrs (Handler (Logger warnHandler))
             (map (\<lambda>a. Attr (Key a) (AnyValue (Any (Val a))))
                [Attr ''service'' (StringValue ''test''), Attr ''version'' (Int64Value 1)])
       = \<lparr>sink = 2, minLevel = 4, groups = [],
          bound = [([], Attr ''service'' (StringValue ''test'')),
                   ([], Attr ''version'' (Int64Value 1))]\<rparr>"
    by (simp add: Handler_WithAttrs_def warnHandler_def LevelWarn_def)
  from t r n have
    "WithAttrs warnCtx [Attr ''service'' (StringValue ''test''), Attr ''version'' (Int64Value 1)] startState
       = With warnCtx (attr_pairs [Attr ''service'' (StringValue ''test''), Attr ''version'' (Int64Value 1)]) startState"
    "WithAttrs warnCtx [Attr ''service'' (StringValue ''test''), Attr ''version'' (Int64Value 1)] startState
       = Inr (WithValue warnCtx contextKey
               (LoggerVal (Some (Logger (Handler_WithAttrs (Handler (Logger warnHandler))
                  (map (\<lambda>a. Attr (Key a) (AnyValue (Any (Val a))))
                     [Attr ''service'' (StringValue ''test''), Attr ''version'' (Int64Value 1)]))))), startState)"
    by blast+
  then show ?thesis
    using r by (simp only: p h)
qed

text \<open>
  The claim C6 as stated fails in its last clause: the attributes are not bound as they
  are. For the attribute \<open>version = 1\<close> the loop of the source builds the argument
  list of the key and the Go integer, which is not the list that holds the attribute
  itself (the one form the engine takes without conversion), and the engine's generic
  conversion then coerces the Go integer into a value again; the call is the call of
  \<^verbatim>\<open>With\<close> on that list.
\<close>

theorem WithAttrs_coercion_counterexample:
  "WithAttrs_args [Attr ''version'' (Int64Value 1)] [] = [AString ''version'', AInt64 1]
   \<and> [AString ''version'', AInt64 1] \<noteq> [AAttr (Attr ''version'' (Int64Value 1))]
   \<and> argsToAttr (AString ''version'') [AInt64 1] = (Attr ''version'' (AnyValue (AInt64 1)), [])
   \<and> WithAttrs warnCtx [Attr ''version'' (Int64Value 1)] startState
       = With warnCtx [AString ''version'', AInt64 1] startState"
  by (simp add: WithAttrs_def With_def)

text \<open>
  C7, as amended. Attributes accumulate across nested \<^verbatim>\<open>With\<close> calls. For a
  context whose resolved logger is a logger \<open>lg\<close> (not nil),
  \<^verbatim>\<open>With(ctx, k1, v1)\<close> and then \<^verbatim>\<open>With(ctx', k2, v2)\<close> both return
  without touching the state, and the logger bound in the second context has the sink,
  threshold and groups of \<open>lg\<close> and the bound attributes of \<open>lg\<close> followed by
  \<open>k1 = v1\<close> and \<open>k2 = v2\<close>. A record emitted through the second context, in
  any later state and at any level the logger enables, carries both, before the
  attributes of the call itself. For a context that resolves to the nil logger the first
  \<^verbatim>\<open>With\<close> panics and there is no derived context.
\<close>

theorem With_accumulates:
  "(loggerFromContext s ctx = Some lg \<longrightarrow>
   (\<exists>ctx' ctx'' lg''.
      With ctx [AString k1, v1] s = Inr (ctx', s)
      \<and> With ctx' [AString k2, v2] s = Inr (ctx'', s)
      \<and> loggerFromContext later ctx'' = Some lg''
      \<and> sink (Handler lg'') = sink (Handler lg)
      \<and> minLevel (Handler lg'') = minLevel (Handler lg)
      \<and> groups (Handler lg'') = groups (Handler lg)
      \<and> bound (Handler lg'') =
            bound (Handler lg) @ [(groups (Handler lg), Attr k1 (AnyValue v1)),
                                  (groups (Handler lg), Attr k2 (AnyValue v2))]
      \<and> (minLevel (Handler lg) \<le> level \<longrightarrow>
           (\<exists>s'. Log ctx'' level msg args later = Inr ((), s')
              \<and> emits later s' (sink (Handler lg))
                    [\<lparr>entry_level = level, entry_message = msg,
                      entry_attrs =
                        bound (Handler lg)
                        @ [(groups (Handler lg), Attr k1 (AnyValue v1)),
                           (groups (Handler lg), Attr k2 (AnyValue v2))]
                        @ map (\<lambda>a. (groups (Handler lg), a)) (argsToAttrSlice args)\<rparr>]))))
   \<and> (loggerFromContext s ctx = None \<longrightarrow> With ctx [AString k1, v1] s = Inl NilDereference)"
proof (intro conjI impI)
  assume "loggerFromContext s ctx = None"
  then show "With ctx [AString k1, v1] s = Inl NilDereference"
    by (simp add: With_def Logger_With_def)
next
  assume r: "loggerFromContext s ctx = Some lg"
  define h1 where "h1 = Handler_WithAttrs (Handler lg) [Attr k1 (AnyValue v1)]"
  define ctx1 where "ctx1 = WithValue ctx contextKey (LoggerVal (Some (Logger h1)))"
  define h2 where "h2 = Handler_WithAttrs h1 [Attr k2 (AnyValue v2)]"
  define ctx2 where "ctx2 = WithValue ctx1 contextKey (LoggerVal (Some (Logger h2)))"
  have w1: "With ctx [AString k1, v1] s = Inr (ctx1, s)"
    using With_Some [OF r, of "[AString k1, v1]"] by (simp add: ctx1_def h1_def)
  have r1: "loggerFromContext s ctx1 = Some (Logger h1)"
    by (simp add: ctx1_def loggerFromContext_bound)
  have w2: "With ctx1 [AString k2, v2] s = Inr (ctx2, s)"
    using With_Some [OF r1, of "[AString k2, v2]"] by (simp add: ctx2_def h2_def)
  have r2: "loggerFromContext later ctx2 = Some (Logger h2)"
    by (simp add: ctx2_def loggerFromContext_bound)
  have f: "sink h2 = sink (Handler lg)" "minLevel h2 = minLevel (Handler lg)"
    "groups h2 = groups (Handler lg)"
    "bound h2 = bound (Handler lg) @ [(groups (Handler lg), Attr k1 (AnyValue v1)),
                                      (groups (Handler lg), Attr k2 (AnyValue v2))]"
    by (simp_all add: h2_def h1_def Handler_WithAttrs_def)
  have e: "\<exists>s'. Log ctx2 level msg args later = Inr ((), s')
              \<and> emits later s' (sink (Handler lg))
                    [\<lparr>entry_level = level, entry_message = msg,
                      entry_attrs =
                        bound (Handler lg)
                        @ [(groups (Handler lg), Attr k1 (AnyValue v1)),
                           (groups (Handler lg), Attr k2 (AnyValue v2))]
                        @ map (\<lambda>a. (groups (Handler lg), a)) (argsToAttrSlice args)\<rparr>]"
    if "minLevel (Handler lg) \<le> level"
    using Log_Some [OF r2, of level msg args] that
    by (simp add: f emitted_entry_def)
  show "\<exists>ctx' ctx'' lg''.
      With ctx [AString k1, v1] s = Inr (ctx', s)
      \<and> With ctx' [AString k2, v2] s = Inr (ctx'', s)
      \<and> loggerFromContext later ctx'' = Some lg''
      \<and> sink (Handler lg'') = sink (Handler lg)
      \<and> minLevel (Handler lg'') = minLevel (Handler lg)
      \<and> groups (Handler lg'') = groups (Handler lg)
      \<and> bound (Handler lg'') =
            bound (Handler lg) @ [(groups (Handler lg), Attr k1 (AnyValue v1)),
                                  (groups (Handler lg), Attr k2 (AnyValue v2))]
      \<and> (minLevel (Handler lg) \<le> level \<longrightarrow>
           (\<exists>s'. Log ctx'' level msg args later = Inr ((), s')
              \<and> emits later s' (sink (Handler lg))
                    [\<lparr>entry_level = level, entry_message = msg,
                      entry_attrs =
                        bound (Handler lg)
                        @ [(groups (Handler lg), Attr k1 (AnyValue v1)),
                           (groups (Handler lg), Attr k2 (AnyValue v2))]
                        @ map (\<lambda>a. (groups (Handler lg), a)) (argsToAttrSlice args)\<rparr>]))"
    apply (rule exI [of _ ctx1])
    apply (rule exI [of _ ctx2])
    apply (rule exI [of _ "Logger h2"])
    using w1 w2 r2 f e by simp
qed

theorem With_accumulates_witness:
  "loggerFromContext startState Background = Some (Logger debugHandler)
   \<and> minLevel (Handler (Logger debugHandler)) \<le> LevelInfo
   \<and> (\<exists>ctx' ctx'' s'.
        With Background [AString ''k1'', AString ''v1''] startState = Inr (ctx', startState)
        \<and> With ctx' [AString ''k2'', AInt 2] startState = Inr (ctx'', startState)
        \<and> Log ctx'' LevelInfo ''msg'' [] startState = Inr ((), s')
        \<and> sinks s' 1 =
            [\<lparr>entry_level = 0, entry_message = ''msg'',
              entry_attrs = [([], Attr ''k1'' (StringValue ''v1'')),
                             ([], Attr ''k2'' (Int64Value 2))]\<rparr>])"
proof -
  have r: "loggerFromContext startState Background = Some (Logger debugHandler)"
    by (simp add: loggerFromContext_def startState_def init_def)
  have e: "minLevel (Handler (Logger debugHandler)) \<le> LevelInfo"
    by (simp add: debugHandler_def LevelDebug_def LevelInfo_def)
  from With_accumulates
    [of startState Background "Logger debugHandler" "''k1''" "AString ''v1''" "''k2''" "AInt 2"
        startState LevelInfo "''msg''" "[]"] r e
  obtain ctx' ctx'' s' where
    w: "With Background [AString ''k1'', AString ''v1''] startState = Inr (ctx', startState)"
       "With ctx' [AString ''k2'', AInt 2] startState = Inr (ctx'', startState)"
       "Log ctx'' LevelInfo ''msg'' [] startState = Inr ((), s')"
    and m: "emits startState s' (sink (Handler (Logger debugHandler)))
         [\<lparr>entry_level = LevelInfo, entry_message = ''msg'',
           entry_attrs =
             bound (Handler (Logger debugHandler))
             @ [(groups (Handler (Logger debugHandler)), Attr ''k1'' (AnyValue (AString ''v1''))),
                (groups (Handler (Logger debugHandler)), Attr ''k2'' (AnyValue (AInt 2)))]
             @ map (\<lambda>a. (groups (Handler (Logger debugHandler)), a)) (argsToAttrSlice [])\<rparr>]"
    by blast
  from m have "sinks s' 1 =
            [\<lparr>entry_level = 0, entry_message = ''msg'',
              entry_attrs = [([], Attr ''k1'' (StringValue ''v1'')),
                             ([], Attr ''k2'' (Int64Value 2))]\<rparr>]"
    by (simp add: emits_def debugHandler_def startState_def init_def LevelInfo_def)
  with w r e show ?thesis by blast
qed

text \<open>
  The claim C7 as stated, for every context, fails on a context that resolves to the nil
  logger: \<^verbatim>\<open>With(ctx, k1, v1)\<close> panics there, when the engine copies the nil
  logger, so no context is derived and no record carries the attributes.
\<close>

theorem With_nil_counterexample:
  "WithLogger Background None startState
     = Inr (WithValue Background contextKey (LoggerVal None), startState)
   \<and> loggerFromContext startState (WithValue Background contextKey (LoggerVal None)) = None
   \<and> With (WithValue Background contextKey (LoggerVal None)) [AString ''k1'', AString ''v1''] startState
       = Inl NilDereference"
  by (simp add: WithLogger_def loggerFromContext_def With_def Logger_With_def)

text \<open>
  C8, as amended. For a context whose resolved logger is \<open>lg\<close> and a group name that
  is not empty, \<^verbatim>\<open>WithGroup(ctx, name)\<close> returns, without touching the state, a
  context bound to a logger that has the sink, the threshold and the bound attributes of
  \<open>lg\<close> and one more open group, \<open>name\<close>, after those of \<open>lg\<close>. Every
  attribute of a record emitted through that context, and every attribute bound by a later
  \<^verbatim>\<open>With\<close> or \<^verbatim>\<open>WithAttrs\<close> on it, is qualified by the groups of \<open>lg\<close>
  followed by \<open>name\<close>; the attributes already bound to \<open>lg\<close> keep their
  qualification. A second \<^verbatim>\<open>WithGroup\<close> with a non-empty name nests inside the
  first: outer group first. With the empty name the resolved logger is bound as it is and
  nothing is qualified.
\<close>

theorem WithGroup_qualifies:
  "(WithGroup ctx [] s = WithLogger ctx (loggerFromContext s ctx) s)
   \<and> (loggerFromContext s ctx = Some lg \<longrightarrow> name \<noteq> [] \<longrightarrow>
     (\<exists>ctx' lg'.
        WithGroup ctx name s = Inr (ctx', s)
        \<and> loggerFromContext later ctx' = Some lg'
        \<and> sink (Handler lg') = sink (Handler lg)
        \<and> minLevel (Handler lg') = minLevel (Handler lg)
        \<and> bound (Handler lg') = bound (Handler lg)
        \<and> groups (Handler lg') = groups (Handler lg) @ [name]
        \<and> (minLevel (Handler lg) \<le> level \<longrightarrow>
             (\<exists>s'. Log ctx' level msg args later = Inr ((), s')
                \<and> emits later s' (sink (Handler lg))
                      [\<lparr>entry_level = level, entry_message = msg,
                        entry_attrs =
                          bound (Handler lg)
                          @ map (\<lambda>a. (groups (Handler lg) @ [name], a)) (argsToAttrSlice args)\<rparr>]))
        \<and> (args \<noteq> [] \<longrightarrow>
             (\<exists>ctx'' lg''. With ctx' args later = Inr (ctx'', later)
                \<and> loggerFromContext later ctx'' = Some lg''
                \<and> groups (Handler lg'') = groups (Handler lg) @ [name]
                \<and> bound (Handler lg'') =
                      bound (Handler lg)
                      @ map (\<lambda>a. (groups (Handler lg) @ [name], a)) (argsToAttrSlice args)))
        \<and> (as \<noteq> [] \<longrightarrow>
             (\<exists>ctx'' lg''. WithAttrs ctx' as later = Inr (ctx'', later)
                \<and> loggerFromContext later ctx'' = Some lg''
                \<and> groups (Handler lg'') = groups (Handler lg) @ [name]
                \<and> bound (Handler lg'') =
                      bound (Handler lg) @ map (\<lambda>a. (groups (Handler lg) @ [name], a)) as))
        \<and> (inner \<noteq> [] \<longrightarrow>
             (\<exists>ctx'' lg''. WithGroup ctx' inner later = Inr (ctx'', later)
                \<and> loggerFromContext later ctx'' = Some lg''
                \<and> bound (Handler lg'') = bound (Handler lg)
                \<and> groups (Handler lg'') = groups (Handler lg) @ [name, inner]))))"
proof (intro conjI impI)
  show "WithGroup ctx [] s = WithLogger ctx (loggerFromContext s ctx) s"
    by (simp add: WithGroup_def Logger_WithGroup_def)
next
  assume r: "loggerFromContext s ctx = Some lg" and n: "name \<noteq> []"
  define h1 where "h1 = (Handler lg)\<lparr>groups := groups (Handler lg) @ [name]\<rparr>"
  define ctx1 where "ctx1 = WithValue ctx contextKey (LoggerVal (Some (Logger h1)))"
  have g: "WithGroup ctx name s = Inr (ctx1, s)"
    using WithGroup_Some [OF r n] by (simp add: ctx1_def h1_def)
  have r1: "loggerFromContext later ctx1 = Some (Logger h1)"
    by (simp add: ctx1_def loggerFromContext_bound)
  have f: "sink h1 = sink (Handler lg)" "minLevel h1 = minLevel (Handler lg)"
    "bound h1 = bound (Handler lg)" "groups h1 = groups (Handler lg) @ [name]"
    by (simp_all add: h1_def)
  have e: "\<exists>s'. Log ctx1 level msg args later = Inr ((), s')
                \<and> emits later s' (sink (Handler lg))
                      [\<lparr>entry_level = level, entry_message = msg,
                        entry_attrs =
                          bound (Handler lg)
                          @ map (\<lambda>a. (groups (Handler lg) @ [name], a)) (argsToAttrSlice args)\<rparr>]"
    if "minLevel (Handler lg) \<le> level"
    using Log_Some [OF r1, of level msg args] that by (simp add: f emitted_entry_def)
  have w: "\<exists>ctx'' lg''. With ctx1 args later = Inr (ctx'', later)
                \<and> loggerFromContext later ctx'' = Some lg''
                \<and> groups (Handler lg'') = groups (Handler lg) @ [name]
                \<and> bound (Handler lg'') =
                      bound (Handler lg)
                      @ map (\<lambda>a. (groups (Handler lg) @ [name], a)) (argsToAttrSlice args)"
    if "args \<noteq> []"
    using With_Some [OF r1 that]
    by (simp add: loggerFromContext_bound Handler_WithAttrs_def f)
  have wa: "\<exists>ctx'' lg''. WithAttrs ctx1 as later = Inr (ctx'', later)
                \<and> loggerFromContext later ctx'' = Some lg''
                \<and> groups (Handler lg'') = groups (Handler lg) @ [name]
                \<and> bound (Handler lg'') =
                      bound (Handler lg) @ map (\<lambda>a. (groups (Handler lg) @ [name], a)) as"
    if "as \<noteq> []"
    using With_Some [OF r1, of "attr_pairs as"] that
    by (simp add: WithAttrs_With attr_pairs_eq_Nil argsToAttrSlice_attr_pairs
        loggerFromContext_bound Handler_WithAttrs_def f)
  have gg: "\<exists>ctx'' lg''. WithGroup ctx1 inner later = Inr (ctx'', later)
                \<and> loggerFromContext later ctx'' = Some lg''
                \<and> bound (Handler lg'') = bound (Handler lg)
                \<and> groups (Handler lg'') = groups (Handler lg) @ [name, inner]"
    if "inner \<noteq> []"
    using WithGroup_Some [OF r1 that]
    by (simp add: loggerFromContext_bound f)
  show "\<exists>ctx' lg'.
        WithGroup ctx name s = Inr (ctx', s)
        \<and> loggerFromContext later ctx' = Some lg'
        \<and> sink (Handler lg') = sink (Handler lg)
        \<and> minLevel (Handler lg') = minLevel (Handler lg)
        \<and> bound (Handler lg') = bound (Handler lg)
        \<and> groups (Handler lg') = groups (Handler lg) @ [name]
        \<and> (minLevel (Handler lg) \<le> level \<longrightarrow>
             (\<exists>s'. Log ctx' level msg args later = Inr ((), s')
                \<and> emits later s' (sink (Handler lg))
                      [\<lparr>entry_level = level, entry_message = msg,
                        entry_attrs =
                          bound (Handler lg)
                          @ map (\<lambda>a. (groups (Handler lg) @ [name], a)) (argsToAttrSlice args)\<rparr>]))
        \<and> (args \<noteq> [] \<longrightarrow>
             (\<exists>ctx'' lg''. With ctx' args later = Inr (ctx'', later)
                \<and> loggerFromContext later ctx'' = Some lg''
                \<and> groups (Handler lg'') = groups (Handler lg) @ [name]
                \<and> bound (Handler lg'') =
                      bound (Handler lg)
                      @ map (\<lambda>a. (groups (Handler lg) @ [name], a)) (argsToAttrSlice args)))
        \<and> (as \<noteq> [] \<longrightarrow>
             (\<exists>ctx'' lg''. WithAttrs ctx' as later = Inr (ctx'', later)
                \<and> loggerFromContext later ctx'' = Some lg''
                \<and> groups (Handler lg'') = groups (Handler lg) @ [name]
                \<and> bound (Handler lg'') =
                      bound (Handler lg) @ map (\<lambda>a. (groups (Handler lg) @ [name], a)) as))
        \<and> (inner \<noteq> [] \<longrightarrow>
             (\<exists>ctx'' lg''. WithGroup ctx' inner later = Inr (ctx'', later)
                \<and> loggerFromContext later ctx'' = Some lg''
                \<and> bound (Handler lg'') = bound (Handler lg)
                \<and> groups (Handler lg'') = groups (Handler lg) @ [name, inner]))"
    apply (rule exI [of _ ctx1])
    apply (rule exI [of _ "Logger h1"])
    using g r1 f e w wa gg by simp
qed

theorem WithGroup_qualifies_witness:
  "loggerFromContext startState Background = Some (Logger debugHandler)
   \<and> ''api'' \<noteq> []
   \<and> minLevel (Handler (Logger debugHandler)) \<le> LevelInfo
   \<and> (\<exists>ctx' s' ctx'' lg''.
        WithGroup Background ''api'' startState = Inr (ctx', startState)
        \<and> Log ctx' LevelInfo ''m'' [AString ''k'', AString ''v''] startState = Inr ((), s')
        \<and> sinks s' 1 =
            [\<lparr>entry_level = 0, entry_message = ''m'',
              entry_attrs = [([''api''], Attr ''k'' (StringValue ''v''))]\<rparr>]
        \<and> WithGroup ctx' ''db'' startState = Inr (ctx'', startState)
        \<and> loggerFromContext startState ctx'' = Some lg''
        \<and> groups (Handler lg'') = [''api'', ''db''])"
proof -
  have r: "loggerFromContext startState Background = Some (Logger debugHandler)"
    by (simp add: loggerFromContext_def startState_def init_def)
  have e: "minLevel (Handler (Logger debugHandler)) \<le> LevelInfo"
    by (simp add: debugHandler_def LevelDebug_def LevelInfo_def)
  have n: "''api'' \<noteq> []" "''db'' \<noteq> []"
    by simp_all
  from WithGroup_qualifies
    [of Background startState "Logger debugHandler" "''api''" startState LevelInfo "''m''"
        "[AString ''k'', AString ''v'']" "[]" "''db''"] r e n
  obtain ctx' s' ctx'' lg'' where
    w: "WithGroup Background ''api'' startState = Inr (ctx', startState)"
       "Log ctx' LevelInfo ''m'' [AString ''k'', AString ''v''] startState = Inr ((), s')"
       "WithGroup ctx' ''db'' startState = Inr (ctx'', startState)"
       "loggerFromContext startState ctx'' = Some lg''"
    and g: "groups (Handler lg'') = groups (Handler (Logger debugHandler)) @ [''api'', ''db'']"
    and m: "emits startState s' (sink (Handler (Logger debugHandler)))
         [\<lparr>entry_level = LevelInfo, entry_message = ''m'',
           entry_attrs =
             bound (Handler (Logger debugHandler))
             @ map (\<lambda>a. (groups (Handler (Logger debugHandler)) @ [''api''], a))
                 (argsToAttrSlice [AString ''k'', AString ''v''])\<rparr>]"
    by blast
  from m have m': "sinks s' 1 =
            [\<lparr>entry_level = 0, entry_message = ''m'',
              entry_attrs = [([''api''], Attr ''k'' (StringValue ''v''))]\<rparr>]"
    by (simp add: emits_def debugHandler_def startState_def init_def LevelInfo_def)
  from g have g': "groups (Handler lg'') = [''api'', ''db'']"
    by (simp add: debugHandler_def)
  from w m' g' r e n show ?thesis by blast
qed

text \<open>
  The claim C8 as stated fails at the empty group name: the engine's
  \<^verbatim>\<open>WithGroup\<close> returns its receiver for the empty name, so the context returned
  by \<^verbatim>\<open>WithGroup(ctx, "")\<close> is bound to the resolved logger itself, with no group
  open, and the key of an attribute emitted through it has no qualification at all (the
  path of groups is empty; qualified by the empty name it would be the one-element path
  holding the empty name).
\<close>

theorem WithGroup_empty_name_counterexample:
  "loggerFromContext startState Background = Some (Logger debugHandler)
   \<and> WithGroup Background [] startState
       = Inr (WithValue Background contextKey (LoggerVal (Some (Logger debugHandler))), startState)
   \<and> groups (Handler (Logger debugHandler)) = []
   \<and> Info (WithValue Background contextKey (LoggerVal (Some (Logger debugHandler))))
         ''m'' [AString ''k'', AString ''v''] startState
       = Inr ((), startState\<lparr>sinks := (sinks startState)
                (1 := [\<lparr>entry_level = 0, entry_message = ''m'',
                        entry_attrs = [([], Attr ''k'' (StringValue ''v''))]\<rparr>])\<rparr>)"
  by (simp add: WithGroup_def Logger_WithGroup_def WithLogger_def loggerFromContext_def
      Info_def Logger_InfoContext_def forward_Logger_log emitted_entry_def
      debugHandler_def startState_def init_def LevelDebug_def LevelInfo_def)

section \<open>Frame properties\<close>

lemma derivation_state:
  "With ctx args s = Inr (ctx', s') \<Longrightarrow> s' = s \<and> (\<exists>l. ctx' = WithValue ctx contextKey (LoggerVal l))"
  "WithAttrs ctx as s = Inr (ctx', s') \<Longrightarrow> s' = s \<and> (\<exists>l. ctx' = WithValue ctx contextKey (LoggerVal l))"
  "WithGroup ctx name s = Inr (ctx', s') \<Longrightarrow> s' = s \<and> (\<exists>l. ctx' = WithValue ctx contextKey (LoggerVal l))"
  "WithLogger ctx logger s = Inr (ctx', s') \<Longrightarrow> s' = s \<and> (\<exists>l. ctx' = WithValue ctx contextKey (LoggerVal l))"
  by (auto simp: With_def WithAttrs_def WithGroup_def WithLogger_def split: sum.splits)

text \<open>
  C9. Whenever one of \<^verbatim>\<open>With\<close>, \<^verbatim>\<open>WithAttrs\<close>, \<^verbatim>\<open>WithGroup\<close> and
  \<^verbatim>\<open>WithLogger\<close> returns a context derived from \<open>ctx\<close>, the state after the
  call is the state before it and the new context is a new node on top of \<open>ctx\<close>,
  which is the value it was. So \<open>ctx\<close>, and every other context, resolves to the same
  logger after the derivation as before, and every emitting function and
  \<^verbatim>\<open>Enabled\<close> do on \<open>ctx\<close> after the derivation exactly what they did before.
\<close>

theorem derivation_leaves_parent:
  "(With ctx args s = Inr (ctx', s') \<or> WithAttrs ctx as s = Inr (ctx', s')
      \<or> WithGroup ctx name s = Inr (ctx', s') \<or> WithLogger ctx logger s = Inr (ctx', s'))
   \<longrightarrow>
     s' = s
     \<and> (\<exists>l. ctx' = WithValue ctx contextKey (LoggerVal l))
     \<and> loggerFromContext s' ctx = loggerFromContext s ctx
     \<and> loggerFromContext s' other = loggerFromContext s other
     \<and> Log ctx level msg margs s' = Log ctx level msg margs s
     \<and> Debug ctx msg margs s' = Debug ctx msg margs s
     \<and> Info ctx msg margs s' = Info ctx msg margs s
     \<and> Warn ctx msg margs s' = Warn ctx msg margs s
     \<and> Error ctx msg margs s' = Error ctx msg margs s
     \<and> Enabled ctx level s' = Enabled ctx level s"
proof
  assume "With ctx args s = Inr (ctx', s') \<or> WithAttrs ctx as s = Inr (ctx', s')
      \<or> WithGroup ctx name s = Inr (ctx', s') \<or> WithLogger ctx logger s = Inr (ctx', s')"
  then have "s' = s \<and> (\<exists>l. ctx' = WithValue ctx contextKey (LoggerVal l))"
    using derivation_state [of ctx _ s ctx' s'] by blast
  then show "s' = s
     \<and> (\<exists>l. ctx' = WithValue ctx contextKey (LoggerVal l))
     \<and> loggerFromContext s' ctx = loggerFromContext s ctx
     \<and> loggerFromContext s' other = loggerFromContext s other
     \<and> Log ctx level msg margs s' = Log ctx level msg margs s
     \<and> Debug ctx msg margs s' = Debug ctx msg margs s
     \<and> Info ctx msg margs s' = Info ctx msg margs s
     \<and> Warn ctx msg margs s' = Warn ctx msg margs s
     \<and> Error ctx msg margs s' = Error ctx msg margs s
     \<and> Enabled ctx level s' = Enabled ctx level s"
    by simp
qed

theorem derivation_leaves_parent_witness:
  "With Background [AString ''req'', AString ''42''] startState
     = Inr (WithValue Background contextKey
              (LoggerVal (Some (Logger
                 \<lparr>sink = 1, minLevel = - 4, groups = [],
                  bound = [([], Attr ''req'' (StringValue ''42''))]\<rparr>))), startState)
   \<and> loggerFromContext startState Background = Some (Logger debugHandler)
   \<and> Info Background ''boot'' [] startState
       = Inr ((), startState\<lparr>sinks := (sinks startState)
                (1 := [\<lparr>entry_level = 0, entry_message = ''boot'', entry_attrs = []\<rparr>])\<rparr>)"
proof -
  have w: "With Background [AString ''req'', AString ''42''] startState
     = Inr (WithValue Background contextKey
              (LoggerVal (Some (Logger
                 \<lparr>sink = 1, minLevel = - 4, groups = [],
                  bound = [([], Attr ''req'' (StringValue ''42''))]\<rparr>))), startState)"
    by (simp add: With_def Logger_With_def WithLogger_def loggerFromContext_def
        Handler_WithAttrs_def debugHandler_def startState_def init_def LevelDebug_def)
  have i: "Info Background ''boot'' [] startState
       = Inr ((), startState\<lparr>sinks := (sinks startState)
                (1 := [\<lparr>entry_level = 0, entry_message = ''boot'', entry_attrs = []\<rparr>])\<rparr>)"
    by (simp add: Info_def Logger_InfoContext_def forward_Logger_log emitted_entry_def
        loggerFromContext_def debugHandler_def startState_def init_def LevelDebug_def
        LevelInfo_def)
  have r: "loggerFromContext startState Background = Some (Logger debugHandler)"
    by (simp add: loggerFromContext_def startState_def init_def)
  from derivation_leaves_parent
    [of Background "[AString ''req'', AString ''42'']" startState
        "WithValue Background contextKey
              (LoggerVal (Some (Logger
                 \<lparr>sink = 1, minLevel = - 4, groups = [],
                  bound = [([], Attr ''req'' (StringValue ''42''))]\<rparr>)))"
        startState "[]" "[]" None Background LevelInfo "''boot''" "[]"] w
  have "Info Background ''boot'' [] startState = Info Background ''boot'' [] startState
        \<and> loggerFromContext startState Background = loggerFromContext startState Background"
    by blast
  with w r i show ?thesis by blast
qed

section \<open>Capture of the default logger\<close>

lemma derived_from_refl: "derived_from lg lg"
  by (simp add: derived_from_def)

lemma derived_from_WithAttrs: "derived_from lg (Logger (Handler_WithAttrs (Handler lg) as))"
  by (simp add: derived_from_def Handler_WithAttrs_def)

lemma derived_from_WithGroup: "derived_from lg (Logger (Handler_WithGroup (Handler lg) name))"
  by (simp add: derived_from_def Handler_WithGroup_def)

lemma Logger_With_derived:
  "\<exists>lg'. Logger_With (Some lg) args = Inr (Some lg') \<and> derived_from lg lg'"
  by (simp add: Logger_With_def derived_from_refl derived_from_WithAttrs)

lemma Logger_WithGroup_derived:
  "\<exists>lg'. Logger_WithGroup (Some lg) name = Inr (Some lg') \<and> derived_from lg lg'"
  by (simp add: Logger_WithGroup_def derived_from_refl derived_from_WithGroup)

lemma unbound_resolves_default:
  "nearest_binding ctx = None \<Longrightarrow> loggerFromContext s ctx = defaultLogger s"
  by (simp add: loggerFromContext_def Value_nearest_binding)

lemma bound_context_after_SetDefault:
  "SetDefault other s = Inr ((), s\<lparr>defaultLogger := other\<rparr>)
   \<and> loggerFromContext (s\<lparr>defaultLogger := other\<rparr>) (WithValue ctx contextKey (LoggerVal l)) = l
   \<and> Log (WithValue ctx contextKey (LoggerVal l)) level msg margs (s\<lparr>defaultLogger := other\<rparr>)
       = forward (Logger_log l level msg margs) (s\<lparr>defaultLogger := other\<rparr>)"
  by (simp add: SetDefault_def Log_def loggerFromContext_bound)

lemma unbound_derivation_binds:
  assumes "nearest_binding ctx = None"
  shows "With ctx args s = Inr (ctx', s') \<Longrightarrow>
           s' = s \<and> Logger_With (defaultLogger s) args = Inr (loggerFromContext later ctx')"
    and "WithAttrs ctx as s = Inr (ctx', s') \<Longrightarrow>
           s' = s \<and> Logger_With (defaultLogger s) (attr_pairs as) = Inr (loggerFromContext later ctx')"
    and "WithGroup ctx name s = Inr (ctx', s') \<Longrightarrow>
           s' = s \<and> Logger_WithGroup (defaultLogger s) name = Inr (loggerFromContext later ctx')"
  using unbound_resolves_default [OF assms, of s]
  by (auto simp: WithAttrs_With With_def WithGroup_def WithLogger_def loggerFromContext_bound
      split: sum.splits)

text \<open>
  C10, as amended. Let the chain of \<open>ctx\<close> carry no binding. Whenever
  \<^verbatim>\<open>With\<close>, \<^verbatim>\<open>WithAttrs\<close> or \<^verbatim>\<open>WithGroup\<close> returns a context, the
  state is untouched and the logger bound in that context is what the engine derives from
  the default logger of the moment of the call; a later \<^verbatim>\<open>SetDefault(other)\<close> does
  not change what the returned context resolves to, while \<open>ctx\<close> itself then resolves
  to \<open>other\<close>. When the default logger at the moment of the call is a logger
  \<open>lg\<close> (not nil), each of the three does return, and the bound logger has the sink
  and the threshold of \<open>lg\<close> and bound attributes and groups that start with those of
  \<open>lg\<close>; \<^verbatim>\<open>Log\<close> through the returned context after the
  \<^verbatim>\<open>SetDefault\<close> is the emission of that logger. When the default logger at the
  moment of the call is nil, \<^verbatim>\<open>With\<close> and \<^verbatim>\<open>WithAttrs\<close> with at least one
  argument and \<^verbatim>\<open>WithGroup\<close> with a non-empty name panic and return no context.
\<close>

theorem derivation_captures_default:
  "nearest_binding ctx = None \<longrightarrow>
     SetDefault other s = Inr ((), s\<lparr>defaultLogger := other\<rparr>)
     \<and> loggerFromContext (s\<lparr>defaultLogger := other\<rparr>) ctx = other
     \<and> (With ctx args s = Inr (c, s') \<longrightarrow>
          s' = s \<and> Logger_With (defaultLogger s) args
                   = Inr (loggerFromContext (s\<lparr>defaultLogger := other\<rparr>) c))
     \<and> (WithAttrs ctx as s = Inr (c, s') \<longrightarrow>
          s' = s \<and> Logger_With (defaultLogger s) (attr_pairs as)
                   = Inr (loggerFromContext (s\<lparr>defaultLogger := other\<rparr>) c))
     \<and> (WithGroup ctx name s = Inr (c, s') \<longrightarrow>
          s' = s \<and> Logger_WithGroup (defaultLogger s) name
                   = Inr (loggerFromContext (s\<lparr>defaultLogger := other\<rparr>) c))
     \<and> (defaultLogger s = Some lg \<longrightarrow>
          (\<exists>ctx' lg'.
             With ctx args s = Inr (ctx', s)
             \<and> Logger_With (Some lg) args = Inr (Some lg') \<and> derived_from lg lg'
             \<and> loggerFromContext (s\<lparr>defaultLogger := other\<rparr>) ctx' = Some lg'
             \<and> Log ctx' level msg margs (s\<lparr>defaultLogger := other\<rparr>)
                 = forward (Logger_log (Some lg') level msg margs) (s\<lparr>defaultLogger := other\<rparr>))
          \<and> (\<exists>ctx' lg'.
             WithAttrs ctx as s = Inr (ctx', s)
             \<and> Logger_With (Some lg) (attr_pairs as) = Inr (Some lg') \<and> derived_from lg lg'
             \<and> loggerFromContext (s\<lparr>defaultLogger := other\<rparr>) ctx' = Some lg'
             \<and> Log ctx' level msg margs (s\<lparr>defaultLogger := other\<rparr>)
                 = forward (Logger_log (Some lg') level msg margs) (s\<lparr>defaultLogger := other\<rparr>))
          \<and> (\<exists>ctx' lg'.
             WithGroup ctx name s = Inr (ctx', s)
             \<and> Logger_WithGroup (Some lg) name = Inr (Some lg') \<and> derived_from lg lg'
             \<and> loggerFromContext (s\<lparr>defaultLogger := other\<rparr>) ctx' = Some lg'
             \<and> Log ctx' level msg margs (s\<lparr>defaultLogger := other\<rparr>)
                 = forward (Logger_log (Some lg') level msg margs) (s\<lparr>defaultLogger := other\<rparr>)))
     \<and> (defaultLogger s = None \<longrightarrow>
          (args \<noteq> [] \<longrightarrow> With ctx args s = Inl NilDereference)
          \<and> (as \<noteq> [] \<longrightarrow> WithAttrs ctx as s = Inl NilDereference)
          \<and> (name \<noteq> [] \<longrightarrow> WithGroup ctx name s = Inl NilDereference))"
proof
  assume u: "nearest_binding ctx = None"
  have sd: "SetDefault other s = Inr ((), s\<lparr>defaultLogger := other\<rparr>)"
    by (simp add: SetDefault_def)
  have p: "loggerFromContext (s\<lparr>defaultLogger := other\<rparr>) ctx = other"
    using unbound_resolves_default [OF u, of "s\<lparr>defaultLogger := other\<rparr>"] by simp
  note g = unbound_derivation_binds [OF u, of _ s c s' "s\<lparr>defaultLogger := other\<rparr>"]
  have n: "(\<exists>ctx' lg'.
             With ctx args s = Inr (ctx', s)
             \<and> Logger_With (Some lg) args = Inr (Some lg') \<and> derived_from lg lg'
             \<and> loggerFromContext (s\<lparr>defaultLogger := other\<rparr>) ctx' = Some lg'
             \<and> Log ctx' level msg margs (s\<lparr>defaultLogger := other\<rparr>)
                 = forward (Logger_log (Some lg') level msg margs) (s\<lparr>defaultLogger := other\<rparr>))
          \<and> (\<exists>ctx' lg'.
             WithAttrs ctx as s = Inr (ctx', s)
             \<and> Logger_With (Some lg) (attr_pairs as) = Inr (Some lg') \<and> derived_from lg lg'
             \<and> loggerFromContext (s\<lparr>defaultLogger := other\<rparr>) ctx' = Some lg'
             \<and> Log ctx' level msg margs (s\<lparr>defaultLogger := other\<rparr>)
                 = forward (Logger_log (Some lg') level msg margs) (s\<lparr>defaultLogger := other\<rparr>))
          \<and> (\<exists>ctx' lg'.
             WithGroup ctx name s = Inr (ctx', s)
             \<and> Logger_WithGroup (Some lg) name = Inr (Some lg') \<and> derived_from lg lg'
             \<and> loggerFromContext (s\<lparr>defaultLogger := other\<rparr>) ctx' = Some lg'
             \<and> Log ctx' level msg margs (s\<lparr>defaultLogger := other\<rparr>)
                 = forward (Logger_log (Some lg') level msg margs) (s\<lparr>defaultLogger := other\<rparr>))"
    if d: "defaultLogger s = Some lg"
  proof -
    have r: "loggerFromContext s ctx = Some lg"
      using unbound_resolves_default [OF u, of s] d by simp
    note b = bound_context_after_SetDefault [of other s ctx _ level msg margs]
    obtain l1 where l1: "Logger_With (Some lg) args = Inr (Some l1)" "derived_from lg l1"
      using Logger_With_derived by blast
    have w1: "With ctx args s = Inr (WithValue ctx contextKey (LoggerVal (Some l1)), s)"
      using r l1(1) by (simp add: With_def WithLogger_def)
    obtain l2 where l2: "Logger_With (Some lg) (attr_pairs as) = Inr (Some l2)" "derived_from lg l2"
      using Logger_With_derived by blast
    have w2: "WithAttrs ctx as s = Inr (WithValue ctx contextKey (LoggerVal (Some l2)), s)"
      using r l2(1) by (simp add: WithAttrs_With With_def WithLogger_def)
    obtain l3 where l3: "Logger_WithGroup (Some lg) name = Inr (Some l3)" "derived_from lg l3"
      using Logger_WithGroup_derived by blast
    have w3: "WithGroup ctx name s = Inr (WithValue ctx contextKey (LoggerVal (Some l3)), s)"
      using r l3(1) by (simp add: WithGroup_def WithLogger_def)
    show ?thesis
      using b [of "Some l1"] b [of "Some l2"] b [of "Some l3"] l1 l2 l3 w1 w2 w3
      by blast
  qed
  have z: "(args \<noteq> [] \<longrightarrow> With ctx args s = Inl NilDereference)
          \<and> (as \<noteq> [] \<longrightarrow> WithAttrs ctx as s = Inl NilDereference)
          \<and> (name \<noteq> [] \<longrightarrow> WithGroup ctx name s = Inl NilDereference)"
    if "defaultLogger s = None"
    using unbound_resolves_default [OF u, of s] that
    by (simp add: WithAttrs_With With_def WithGroup_def Logger_With_def Logger_WithGroup_def
        attr_pairs_eq_Nil)
  show "SetDefault other s = Inr ((), s\<lparr>defaultLogger := other\<rparr>)
     \<and> loggerFromContext (s\<lparr>defaultLogger := other\<rparr>) ctx = other
     \<and> (With ctx args s = Inr (c, s') \<longrightarrow>
          s' = s \<and> Logger_With (defaultLogger s) args
                   = Inr (loggerFromContext (s\<lparr>defaultLogger := other\<rparr>) c))
     \<and> (WithAttrs ctx as s = Inr (c, s') \<longrightarrow>
          s' = s \<and> Logger_With (defaultLogger s) (attr_pairs as)
                   = Inr (loggerFromContext (s\<lparr>defaultLogger := other\<rparr>) c))
     \<and> (WithGroup ctx name s = Inr (c, s') \<longrightarrow>
          s' = s \<and> Logger_WithGroup (defaultLogger s) name
                   = Inr (loggerFromContext (s\<lparr>defaultLogger := other\<rparr>) c))
     \<and> (defaultLogger s = Some lg \<longrightarrow>
          (\<exists>ctx' lg'.
             With ctx args s = Inr (ctx', s)
             \<and> Logger_With (Some lg) args = Inr (Some lg') \<and> derived_from lg lg'
             \<and> loggerFromContext (s\<lparr>defaultLogger := other\<rparr>) ctx' = Some lg'
             \<and> Log ctx' level msg margs (s\<lparr>defaultLogger := other\<rparr>)
                 = forward (Logger_log (Some lg') level msg margs) (s\<lparr>defaultLogger := other\<rparr>))
          \<and> (\<exists>ctx' lg'.
             WithAttrs ctx as s = Inr (ctx', s)
             \<and> Logger_With (Some lg) (attr_pairs as) = Inr (Some lg') \<and> derived_from lg lg'
             \<and> loggerFromContext (s\<lparr>defaultLogger := other\<rparr>) ctx' = Some lg'
             \<and> Log ctx' level msg margs (s\<lparr>defaultLogger := other\<rparr>)
                 = forward (Logger_log (Some lg') level msg margs) (s\<lparr>defaultLogger := other\<rparr>))
          \<and> (\<exists>ctx' lg'.
             WithGroup ctx name s = Inr (ctx', s)
             \<and> Logger_WithGroup (Some lg) name = Inr (Some lg') \<and> derived_from lg lg'
             \<and> loggerFromContext (s\<lparr>defaultLogger := other\<rparr>) ctx' = Some lg'
             \<and> Log ctx' level msg margs (s\<lparr>defaultLogger := other\<rparr>)
                 = forward (Logger_log (Some lg') level msg margs) (s\<lparr>defaultLogger := other\<rparr>)))
     \<and> (defaultLogger s = None \<longrightarrow>
          (args \<noteq> [] \<longrightarrow> With ctx args s = Inl NilDereference)
          \<and> (as \<noteq> [] \<longrightarrow> WithAttrs ctx as s = Inl NilDereference)
          \<and> (name \<noteq> [] \<longrightarrow> WithGroup ctx name s = Inl NilDereference))"
    using sd p g n z by blast
qed

theorem derivation_captures_default_witness:
  "nearest_binding Background = None
   \<and> defaultLogger startState = Some (Logger debugHandler)
   \<and> (\<exists>ctx' s2 s3.
        With Background [AString ''req'', AString ''42''] startState = Inr (ctx', startState)
        \<and> SetDefault (Some (Logger warnHandler)) startState = Inr ((), s2)
        \<and> loggerFromContext s2 Background = Some (Logger warnHandler)
        \<and> Log ctx' LevelWarn ''slow'' [] s2 = Inr ((), s3)
        \<and> sinks s3 1 =
            [\<lparr>entry_level = 4, entry_message = ''slow'',
              entry_attrs = [([], Attr ''req'' (StringValue ''42''))]\<rparr>]
        \<and> sinks s3 2 = [])"
proof -
  have u: "nearest_binding Background = None"
    by simp
  have d: "defaultLogger startState = Some (Logger debugHandler)"
    by (simp add: startState_def init_def)
  define s2 where "s2 = startState\<lparr>defaultLogger := Some (Logger warnHandler)\<rparr>"
  from derivation_captures_default
    [of Background "Some (Logger warnHandler)" startState "[AString ''req'', AString ''42'']"
        Background startState "[]" "''db''" "Logger debugHandler" LevelWarn "''slow''" "[]"] u d
  obtain ctx' lg' where
    sd: "SetDefault (Some (Logger warnHandler)) startState = Inr ((), s2)"
    and p: "loggerFromContext s2 Background = Some (Logger warnHandler)"
    and w: "With Background [AString ''req'', AString ''42''] startState = Inr (ctx', startState)"
    and l: "Logger_With (Some (Logger debugHandler)) [AString ''req'', AString ''42''] = Inr (Some lg')"
    and e: "Log ctx' LevelWarn ''slow'' [] s2 = forward (Logger_log (Some lg') LevelWarn ''slow'' []) s2"
    unfolding s2_def by blast
  from l have lg': "lg' = Logger \<lparr>sink = 1, minLevel = - 4, groups = [],
                        bound = [([], Attr ''req'' (StringValue ''42''))]\<rparr>"
    by (simp add: Logger_With_def Handler_WithAttrs_def debugHandler_def LevelDebug_def)
  define s3 where "s3 = s2\<lparr>sinks := (sinks s2)
      (1 := sinks s2 1 @ [\<lparr>entry_level = 4, entry_message = ''slow'',
              entry_attrs = [([], Attr ''req'' (StringValue ''42''))]\<rparr>])\<rparr>"
  have "Log ctx' LevelWarn ''slow'' [] s2 = Inr ((), s3)"
    by (subst e) (simp add: lg' forward_Logger_log emitted_entry_def LevelWarn_def s3_def)
  moreover have "sinks s3 1 =
            [\<lparr>entry_level = 4, entry_message = ''slow'',
              entry_attrs = [([], Attr ''req'' (StringValue ''42''))]\<rparr>]"
    "sinks s3 2 = []"
    by (simp_all add: s3_def s2_def startState_def init_def)
  ultimately show ?thesis
    using u d sd p w by blast
qed

text \<open>
  The claim C10 as stated, for every context whose chain carries no bound logger, fails
  when the default logger at the moment of the call is nil, as it is after
  \<^verbatim>\<open>SetDefault(nil)\<close>: on the background context each of the three derivations
  panics, so there is no returned context to keep using the captured logger.
\<close>

theorem derivation_nil_default_counterexample:
  "nearest_binding Background = None
   \<and> SetDefault None startState = Inr ((), startState\<lparr>defaultLogger := None\<rparr>)
   \<and> With Background [AString ''req'', AString ''42''] (startState\<lparr>defaultLogger := None\<rparr>)
       = Inl NilDereference
   \<and> WithAttrs Background [Attr ''req'' (StringValue ''42'')] (startState\<lparr>defaultLogger := None\<rparr>)
       = Inl NilDereference
   \<and> WithGroup Background ''db'' (startState\<lparr>defaultLogger := None\<rparr>)
       = Inl NilDereference"
  by (simp add: SetDefault_def With_def WithAttrs_def WithGroup_def Logger_With_def
      Logger_WithGroup_def loggerFromContext_def)

end
